theory Spec2Isabelle
  imports Main "HOL-Library.AList" "HOL-Library.Char_ord" "HOL-Library.List_Lexorder"
begin

section \<open>Messages, errors and observable effects\<close>

text \<open>
  The keys of the table \<^verbatim>\<open>module_errors\<close> of \<^verbatim>\<open>dnf/modules.py\<close>, and the table itself.
\<close>

datatype msg_id =
    LOAD_CACHE_ERR | MISSING_YAML_ERR | NO_METADATA_ERR | NO_MODULE_OR_STREAM_ERR
  | NO_MODULE_ERR | NO_PROFILE_ERR | NO_STREAM_ERR | NO_ACTIVE_STREAM_ERR
  | STREAM_NOT_ENABLED_ERR | DIFFERENT_STREAM_INFO | INVALID_MODULE_ERR
  | LOWER_VERSION_INFO | NOTHING_TO_SHOW | PARSING_ERR | PROFILE_NOT_INSTALLED

fun module_errors :: "msg_id \<Rightarrow> string" where
  "module_errors LOAD_CACHE_ERR = ''Cannot load from cache dir: {}''"
| "module_errors MISSING_YAML_ERR = ''Missing file *modules.yaml in metadata cache dir: {}''"
| "module_errors NO_METADATA_ERR = ''No available metadata for module: {}''"
| "module_errors NO_MODULE_OR_STREAM_ERR =
     ''No such module: {} or active stream (enable a stream first)''"
| "module_errors NO_MODULE_ERR = ''No such module: {}''"
| "module_errors NO_PROFILE_ERR = ''No such profile: {}. Possible profiles: {}''"
| "module_errors NO_STREAM_ERR = ''No such stream {} in {}''"
| "module_errors NO_ACTIVE_STREAM_ERR = ''No active stream for module: {}''"
| "module_errors STREAM_NOT_ENABLED_ERR = ''Stream not enabled. Skipping {}''"
| "module_errors DIFFERENT_STREAM_INFO = ''Enabling different stream for {}''"
| "module_errors INVALID_MODULE_ERR = ''Not a valid module: {}''"
| "module_errors LOWER_VERSION_INFO =
     ''Using lower version due to missing profile in latest version''"
| "module_errors NOTHING_TO_SHOW = ''Nothing to show''"
| "module_errors PARSING_ERR =
     ''Probable parsing problem of {}, try specifying MODULE-STREAM-VERSION''"
| "module_errors PROFILE_NOT_INSTALLED = ''Profile not installed: {}''"

text \<open>
  A message is \<^verbatim>\<open>module_errors[id].format(args)\<close>, kept as the key and the arguments
  handed to \<^verbatim>\<open>format\<close>: a string, Python's \<^verbatim>\<open>None\<close>, or a list of strings.
\<close>

datatype fmt_arg = FStr string | FNone | FList "string list"

datatype message = Msg msg_id "fmt_arg list"

fun fmt_opt :: "string option \<Rightarrow> fmt_arg" where
  "fmt_opt None = FNone"
| "fmt_opt (Some s) = FStr s"

text \<open>
  The exceptions the modelled code can raise: \<^verbatim>\<open>dnf.exceptions.Error\<close> with its
  message, and the built-in exceptions of failed lookups, of \<^verbatim>\<open>max\<close> of an empty
  sequence, of a failed \<^verbatim>\<open>assert\<close>, and of an attribute of \<^verbatim>\<open>None\<close>.
\<close>

datatype error =
    Error message | KeyError | ValueError | AssertionError | AttributeError | IndexError

section \<open>Strings and integers of the host language\<close>

text \<open>The characters \<^verbatim>\<open>str.strip()\<close> removes from a byte string.\<close>

definition isspace :: "char \<Rightarrow> bool" where
  "isspace c \<longleftrightarrow> c \<in> set [CHR '' '', CHR 0x09, CHR 0x0A, CHR 0x0B, CHR 0x0C, CHR 0x0D]"

definition strip :: "string \<Rightarrow> string" where
  "strip s = rev (dropWhile isspace (rev (dropWhile isspace s)))"

text \<open>
  \<^verbatim>\<open>s.rsplit("/", 1)\<close> for a string that contains the separator: the text before the
  last \<^verbatim>\<open>/\<close> and the text after it.
\<close>

definition rsplit1 :: "string \<Rightarrow> string \<times> string" where
  "rsplit1 s =
     (rev (tl (dropWhile (\<lambda>c. c \<noteq> CHR ''/'') (rev s))),
      rev (takeWhile (\<lambda>c. c \<noteq> CHR ''/'') (rev s)))"

text \<open>
  \<^verbatim>\<open>int(s)\<close> of a string: optional surrounding white space, an optional sign, then one
  or more decimal digits; anything else is \<^verbatim>\<open>ValueError\<close> (the value \<open>None\<close> here).
  Underscores between digits, which later versions of the language read, are refused.
  \<^verbatim>\<open>str(n)\<close> of an integer is its decimal rendering. The properties below use of the
  two only that \<^verbatim>\<open>str\<close> prints a non-empty string that \<^verbatim>\<open>int\<close> reads back.
\<close>

definition digit_of :: "char \<Rightarrow> nat option" where
  "digit_of = map_of
     [(CHR ''0'', 0), (CHR ''1'', 1), (CHR ''2'', 2), (CHR ''3'', 3), (CHR ''4'', 4),
      (CHR ''5'', 5), (CHR ''6'', 6), (CHR ''7'', 7), (CHR ''8'', 8), (CHR ''9'', 9)]"

fun digits_val :: "nat \<Rightarrow> string \<Rightarrow> nat option" where
  "digits_val acc [] = Some acc"
| "digits_val acc (c # cs) =
     (case digit_of c of None \<Rightarrow> None | Some d \<Rightarrow> digits_val (10 * acc + d) cs)"

definition nat_of_digits :: "string \<Rightarrow> nat option" where
  "nat_of_digits s = (if s = [] then None else digits_val 0 s)"

definition py_int :: "string \<Rightarrow> int option" where
  "py_int s =
     (case strip s of
        [] \<Rightarrow> None
      | c # cs \<Rightarrow>
          if c = CHR ''-'' then map_option (\<lambda>n. - int n) (nat_of_digits cs)
          else if c = CHR ''+'' then map_option int (nat_of_digits cs)
          else map_option int (nat_of_digits (c # cs)))"

definition digit_char :: "nat \<Rightarrow> char" where
  "digit_char d = ''0123456789'' ! d"

function str_nat :: "nat \<Rightarrow> string" where
  "str_nat n = (if n < 10 then [digit_char n] else str_nat (n div 10) @ [digit_char (n mod 10)])"
  by pat_completeness auto
termination
  by (relation "measure id") auto

definition py_str :: "int \<Rightarrow> string" where
  "py_str i = (if i < 0 then CHR ''-'' # str_nat (nat (- i)) else str_nat (nat i))"

text \<open>\<^verbatim>\<open>s.replace("0:", "")\<close>: every occurrence of \<^verbatim>\<open>0:\<close>, left to right, removed.\<close>

fun replace_0colon :: "string \<Rightarrow> string" where
  "replace_0colon (a # b # cs) =
     (if a = CHR ''0'' \<and> b = CHR '':'' then replace_0colon cs else a # replace_0colon (b # cs))"
| "replace_0colon cs = cs"

section \<open>The data model\<close>

text \<open>
  The metadata record of one module release (\<^verbatim>\<open>modulemd.ModuleMetadata\<close>), with the
  attributes the code reads: name, stream, integer version, the profiles (profile name to
  its package names, a dictionary kept as an association list) and the artifacts.
\<close>

record ModuleMetadata =
  md_name :: string
  md_stream :: string
  md_version :: int
  md_profiles :: "(string \<times> string list) list"
  md_artifacts :: "string list"

text \<open>
  \<^verbatim>\<open>RepoModuleVersion\<close>. The repository is kept by its \<^verbatim>\<open>id\<close>; \<^verbatim>\<open>base\<close> is the
  one engine of the process; \<^verbatim>\<open>parent\<close> is a back pointer, followed in the model by
  looking the version's module up in the registry under the version's name.
\<close>

record RepoModuleVersion =
  module_metadata :: ModuleMetadata
  repo :: string

definition version :: "RepoModuleVersion \<Rightarrow> int" where
  "version mv = md_version (module_metadata mv)"

definition stream :: "RepoModuleVersion \<Rightarrow> string" where
  "stream mv = md_stream (module_metadata mv)"

definition name :: "RepoModuleVersion \<Rightarrow> string" where
  "name mv = md_name (module_metadata mv)"

definition full_stream :: "RepoModuleVersion \<Rightarrow> string" where
  "full_stream mv = md_name (module_metadata mv) @ ''-'' @ md_stream (module_metadata mv)"

definition profiles :: "RepoModuleVersion \<Rightarrow> string list" where
  "profiles mv = sort (map fst (md_profiles (module_metadata mv)))"

text \<open>\<^verbatim>\<open>__lt__\<close>: the assertion, then the comparison of the versions.\<close>

definition lt :: "RepoModuleVersion \<Rightarrow> RepoModuleVersion \<Rightarrow> error + bool" where
  "lt self other =
     (if full_stream self = full_stream other then Inr (version self < version other)
      else Inl AssertionError)"

text \<open>
  The persisted configuration of a module (\<^verbatim>\<open>dnf.conf.ModuleConf\<close>), with the options
  the code reads and writes.
\<close>

record ModuleConf =
  conf_name :: string
  conf_stream :: "string option"
  conf_version :: "int option"
  conf_profiles :: "string list"
  conf_enabled :: bool
  conf_locked :: bool

text \<open>
  \<^verbatim>\<open>RepoModuleStream\<close>: an ordered dictionary from version to \<^verbatim>\<open>RepoModuleVersion\<close>,
  and the attribute \<^verbatim>\<open>stream\<close>.
\<close>

record RepoModuleStream =
  versions :: "(int \<times> RepoModuleVersion) list"
  rms_stream :: "string option"

definition RepoModuleStream_init :: RepoModuleStream where
  "RepoModuleStream_init = \<lparr>versions = [], rms_stream = None\<rparr>"

definition RepoModuleStream_add :: "RepoModuleVersion \<Rightarrow> RepoModuleStream \<Rightarrow> RepoModuleStream" where
  "RepoModuleStream_add repo_module_version self =
     self\<lparr>versions := AList.update (version repo_module_version) repo_module_version (versions self),
          rms_stream := Some (stream repo_module_version)\<rparr>"

text \<open>
  \<^verbatim>\<open>latest\<close> is \<^verbatim>\<open>max(self.values())\<close>: \<^verbatim>\<open>ValueError\<close> on an empty stream; otherwise
  the running maximum is replaced by each later value that it is less than, each
  comparison going through \<^verbatim>\<open>__lt__\<close>.
\<close>

fun max_loop :: "RepoModuleVersion \<Rightarrow> RepoModuleVersion list \<Rightarrow> error + RepoModuleVersion" where
  "max_loop m [] = Inr m"
| "max_loop m (x # xs) =
     (case lt m x of
        Inl e \<Rightarrow> Inl e
      | Inr b \<Rightarrow> max_loop (if b then x else m) xs)"

definition latest :: "RepoModuleStream \<Rightarrow> error + RepoModuleVersion" where
  "latest self =
     (case map snd (versions self) of
        [] \<Rightarrow> Inl ValueError
      | m # xs \<Rightarrow> max_loop m xs)"

text \<open>
  \<^verbatim>\<open>RepoModule\<close>: an ordered dictionary from stream name to \<^verbatim>\<open>RepoModuleStream\<close>, the
  configuration (\<^verbatim>\<open>None\<close> until read or created), the name, the profiles and the version
  recorded by install and upgrade. Every caller of \<^verbatim>\<open>RepoModule()\<close> sets the name before
  it lets go of the object, so the name is a string here.
\<close>

record RepoModule =
  streams :: "(string \<times> RepoModuleStream) list"
  conf :: "ModuleConf option"
  rm_name :: string
  installed_profiles :: "string list"
  installed_repo_module_version :: "RepoModuleVersion option"

definition RepoModule_init :: "string \<Rightarrow> RepoModule" where
  "RepoModule_init n =
     \<lparr>streams = [], conf = None, rm_name = n, installed_profiles = [],
      installed_repo_module_version = None\<rparr>"

definition setdefault :: "'k \<Rightarrow> 'v \<Rightarrow> ('k \<times> 'v) list \<Rightarrow> 'v \<times> ('k \<times> 'v) list" where
  "setdefault k v al =
     (case map_of al k of Some x \<Rightarrow> (x, al) | None \<Rightarrow> (v, al @ [(k, v)]))"

definition RepoModule_add :: "RepoModuleVersion \<Rightarrow> RepoModule \<Rightarrow> RepoModule" where
  "RepoModule_add repo_module_version self =
     (let (module_stream, ss) =
            setdefault (stream repo_module_version) RepoModuleStream_init (streams self)
      in self\<lparr>streams :=
                 AList.update (stream repo_module_version)
                   (RepoModuleStream_add repo_module_version module_stream) ss,
               rm_name := name repo_module_version\<rparr>)"

text \<open>
  What the outside world sees of a run, in the order it happens: a logged message, a
  question put to the user (\<^verbatim>\<open>userconfirm\<close>), a configuration written to the file
  \<^verbatim>\<open><name>.module\<close> of the modules directory, and a package handed to the engine's
  \<^verbatim>\<open>install\<close> or \<^verbatim>\<open>upgrade\<close> (the package, then the repository id).
\<close>

datatype level = DEBUG | INFO | WARNING | ERROR

datatype event =
    Log level message
  | UserConfirm
  | WriteConf string ModuleConf
  | BaseInstall string string
  | BaseUpgrade string string

text \<open>
  The registry \<^verbatim>\<open>RepoModuleDict\<close> with its transaction tracker
  (\<^verbatim>\<open>ModuleTransactionProgress\<close>: \<^verbatim>\<open>repo_modules\<close> and \<^verbatim>\<open>saved\<close>) and the events so
  far. The tracker holds references to module objects; a module object is the value of
  one key of the registry for as long as the registry lives, so a reference is that key.
\<close>

record state =
  modules :: "(string \<times> RepoModule) list"
  repo_modules :: "string list"
  saved :: bool
  events :: "event list"

definition RepoModuleDict_init :: state where
  "RepoModuleDict_init = \<lparr>modules = [], repo_modules = [], saved = False, events = []\<rparr>"

definition RepoModuleDict_add :: "RepoModuleVersion \<Rightarrow> state \<Rightarrow> state" where
  "RepoModuleDict_add repo_module_version self =
     (let (m, ms) =
            setdefault (name repo_module_version) (RepoModule_init (name repo_module_version))
              (modules self)
      in self\<lparr>modules :=
                 AList.update (name repo_module_version) (RepoModule_add repo_module_version m) ms\<rparr>)"

text \<open>
  \<^verbatim>\<open>load_modules\<close>, from the records the metadata loader yields for a repository, and
  \<^verbatim>\<open>read_all_modules\<close>, from the configurations the reader yields.
\<close>

fun load_modules :: "string \<Rightarrow> ModuleMetadata list \<Rightarrow> state \<Rightarrow> state" where
  "load_modules r [] self = self"
| "load_modules r (md # mds) self =
     load_modules r mds (RepoModuleDict_add \<lparr>module_metadata = md, repo = r\<rparr> self)"

fun read_all_modules :: "ModuleConf list \<Rightarrow> state \<Rightarrow> state" where
  "read_all_modules [] self = self"
| "read_all_modules (c # cs) self =
     (let (repo_module, ms) = setdefault (conf_name c) (RepoModule_init (conf_name c)) (modules self)
      in read_all_modules cs
           (self\<lparr>modules :=
                    AList.update (conf_name c)
                      (repo_module\<lparr>conf := Some c, rm_name := conf_name c\<rparr>) ms\<rparr>))"

section \<open>The identifier parser\<close>

text \<open>
  One candidate of \<^verbatim>\<open>hawkey\<close>'s package-specifier parser, with the attributes the code
  reads, and the \<^verbatim>\<open>NSVAP\<close> identifier.
\<close>

record NEVRA =
  nevra_name :: string
  nevra_version :: "string option"
  nevra_release :: "string option"
  nevra_arch :: "string option"

record NSVAP =
  nsvap_name :: string
  nsvap_stream :: "string option"
  nsvap_version :: "int option"
  nsvap_arch :: "string option"
  nsvap_profile :: "string option"

text \<open>
  The collaborators outside this repository, as the code calls them:
  \<^verbatim>\<open>hawkey.Subject(s).nevra_possibilities(**kwargs)\<close>, the first candidate of
  \<^verbatim>\<open>dnf.subject.Subject(s).get_nevra_possibilities(hawkey.FORM_NEVRA)\<close> as its name and
  its \<^verbatim>\<open>evr()\<close> (\<open>None\<close> when there is no candidate), the options of a configuration
  that \<^verbatim>\<open>ModuleConf(section=..., parser=ConfigParser())\<close> has just made, and the answer
  the user gives when \<^verbatim>\<open>userconfirm()\<close> asks.
\<close>

record externals =
  nevra_possibilities :: "string \<Rightarrow> NEVRA list"
  first_nevra :: "string \<Rightarrow> (string \<times> string) option"
  ModuleConf_init :: "string \<Rightarrow> ModuleConf"
  userconfirm :: bool

text \<open>
  \<^verbatim>\<open>NSVAP.__init__\<close>: the version is \<^verbatim>\<open>version is not None and int(version) or None\<close>,
  of a version that is an integer or \<^verbatim>\<open>None\<close>.
\<close>

definition and_or_None :: "int option \<Rightarrow> int option" where
  "and_or_None v = (case v of None \<Rightarrow> None | Some n \<Rightarrow> if n \<noteq> 0 then Some n else None)"

definition NSVAP_init ::
  "string \<Rightarrow> string option \<Rightarrow> int option \<Rightarrow> string option \<Rightarrow> string option \<Rightarrow> NSVAP" where
  "NSVAP_init n s v a p =
     \<lparr>nsvap_name = n, nsvap_stream = s, nsvap_version = and_or_None v, nsvap_arch = a,
      nsvap_profile = p\<rparr>"

text \<open>The first lines of \<^verbatim>\<open>get_nsvap_possibilities\<close>: the profile is split off.\<close>

definition split_profile :: "string \<Rightarrow> string \<times> string option" where
  "split_profile pkg_spec =
     (if CHR ''/'' \<in> set pkg_spec
      then (let (nsva, profile) = rsplit1 pkg_spec
            in (nsva, if strip profile = [] then None else Some profile))
      else (pkg_spec, None))"

text \<open>
  The loop of \<^verbatim>\<open>get_nsvap_possibilities\<close>. A release that \<^verbatim>\<open>int\<close> refuses is
  skipped (the \<^verbatim>\<open>ValueError\<close> is caught); an accepted one is replaced by
  \<^verbatim>\<open>str(int(release))\<close>. The second \<^verbatim>\<open>int(i.release)\<close>, in
  \<^verbatim>\<open>i.release and int(i.release) or None\<close>, is outside the \<^verbatim>\<open>try\<close>.
\<close>

definition release_and_int_or_None :: "string option \<Rightarrow> error + int option" where
  "release_and_int_or_None r =
     (case r of
        None \<Rightarrow> Inr None
      | Some s \<Rightarrow>
          if s = [] then Inr None
          else (case py_int s of
                  None \<Rightarrow> Inl ValueError
                | Some n \<Rightarrow> Inr (if n \<noteq> 0 then Some n else None)))"

fun nsvap_loop :: "string option \<Rightarrow> NEVRA list \<Rightarrow> error + NSVAP list" where
  "nsvap_loop profile [] = Inr []"
| "nsvap_loop profile (i # possibilities) =
     (case (case nevra_release i of
              None \<Rightarrow> Some i
            | Some r \<Rightarrow>
                (case py_int r of
                   None \<Rightarrow> None
                 | Some n \<Rightarrow> Some (i\<lparr>nevra_release := Some (py_str n)\<rparr>))) of
        None \<Rightarrow> nsvap_loop profile possibilities
      | Some i' \<Rightarrow>
          (case release_and_int_or_None (nevra_release i') of
             Inl e \<Rightarrow> Inl e
           | Inr v \<Rightarrow>
               (case nsvap_loop profile possibilities of
                  Inl e \<Rightarrow> Inl e
                | Inr result \<Rightarrow>
                    Inr (NSVAP_init (nevra_name i') (nevra_version i') v (nevra_arch i') profile
                         # result))))"

definition get_nsvap_possibilities :: "externals \<Rightarrow> string \<Rightarrow> error + NSVAP list" where
  "get_nsvap_possibilities ext pkg_spec =
     (let (nsva, profile) = split_profile pkg_spec
      in nsvap_loop profile (nevra_possibilities ext nsva))"

section \<open>Resolution\<close>

text \<open>
  \<^verbatim>\<open>RepoModuleDict.find_module_version\<close>. Every dictionary lookup that misses raises
  \<^verbatim>\<open>KeyError\<close>, which the function catches and turns into \<^verbatim>\<open>None\<close>; an exception of
  \<^verbatim>\<open>latest\<close> is not caught. A configuration object is true; a stream is true when it
  is a non-empty string, a version when it is a non-zero integer.
\<close>

definition find_module_version ::
  "(string \<times> RepoModule) list \<Rightarrow> string \<Rightarrow> string option \<Rightarrow> int option \<Rightarrow> string option
     \<Rightarrow> error + RepoModuleVersion option" where
  "find_module_version self nm strm vers arch =
     (case map_of self nm of
        None \<Rightarrow> Inr None
      | Some repo_module \<Rightarrow>
          (let strm1 =
                 (if strm = None \<or> strm = Some []
                  then (case conf repo_module of
                          Some c \<Rightarrow> if conf_enabled c then conf_stream c else strm
                        | None \<Rightarrow> strm)
                  else strm);
               strm2 =
                 (if strm1 = None \<or> strm1 = Some []
                  then Some (if nm = ''httpd'' then ''2.4'' else ''f26'')
                  else strm1)
           in case strm2 of
                None \<Rightarrow> Inr None
              | Some s \<Rightarrow>
                  if s = [] then Inr None
                  else
                    (case map_of (streams repo_module) s of
                       None \<Rightarrow> Inr None
                     | Some repo_module_stream \<Rightarrow>
                         (case (case conf repo_module of
                                  Some c \<Rightarrow> if conf_locked c then conf_version c else None
                                | None \<Rightarrow> None) of
                            Some locked_version \<Rightarrow>
                              Inr (map_of (versions repo_module_stream) locked_version)
                          | None \<Rightarrow>
                              (case vers of
                                 None \<Rightarrow> map_sum id Some (latest repo_module_stream)
                               | Some v \<Rightarrow>
                                   if v \<noteq> 0 then Inr (map_of (versions repo_module_stream) v)
                                   else map_sum id Some (latest repo_module_stream))))))"

text \<open>
  \<^verbatim>\<open>ModuleSubject.find_module_version\<close>: the first candidate that resolves, with the
  version it resolves to; \<open>None\<close> stands for the pair \<^verbatim>\<open>(None, None)\<close>.
\<close>

fun find_first ::
  "(string \<times> RepoModule) list \<Rightarrow> NSVAP list \<Rightarrow> error + (RepoModuleVersion \<times> NSVAP) option" where
  "find_first d [] = Inr None"
| "find_first d (nsvap # rest) =
     (case find_module_version d (nsvap_name nsvap) (nsvap_stream nsvap) (nsvap_version nsvap)
             (nsvap_arch nsvap) of
        Inl e \<Rightarrow> Inl e
      | Inr None \<Rightarrow> find_first d rest
      | Inr (Some module_version) \<Rightarrow> Inr (Some (module_version, nsvap)))"

definition ModuleSubject_find_module_version ::
  "externals \<Rightarrow> string \<Rightarrow> (string \<times> RepoModule) list
     \<Rightarrow> error + (RepoModuleVersion \<times> NSVAP) option" where
  "ModuleSubject_find_module_version ext pkg_spec repo_module_dict =
     (case get_nsvap_possibilities ext pkg_spec of
        Inl e \<Rightarrow> Inl e
      | Inr possibilities \<Rightarrow> find_first repo_module_dict possibilities)"

section \<open>Enable and disable\<close>

text \<open>
  \<^verbatim>\<open>write_conf_to_file\<close>, called where the configuration has just been assigned: the
  configuration goes to the file \<^verbatim>\<open><conf.name>.module\<close> of the modules directory.
\<close>

definition write_conf_to_file :: "ModuleConf \<Rightarrow> event" where
  "write_conf_to_file c = WriteConf (conf_name c @ ''.module'') c"

text \<open>
  The configuration an operation works on: the module's own, or a new one made on first
  use, whose name is set to the module's.
\<close>

definition conf_or_new :: "externals \<Rightarrow> RepoModule \<Rightarrow> ModuleConf" where
  "conf_or_new ext self =
     (case conf self of
        None \<Rightarrow> (ModuleConf_init ext (rm_name self))\<lparr>conf_name := rm_name self\<rparr>
      | Some c \<Rightarrow> c)"

text \<open>
  The last three statements of \<^verbatim>\<open>RepoModule.enable\<close>: the stream is recorded, the
  module is enabled, the configuration is written.
\<close>

definition record_stream ::
  "string \<Rightarrow> RepoModule \<Rightarrow> event list \<Rightarrow> error option \<times> RepoModule \<times> event list" where
  "record_stream strm self evs =
     (case conf self of
        None \<Rightarrow> (Some AttributeError, self, evs)
      | Some c \<Rightarrow>
          (let c' = c\<lparr>conf_stream := Some strm, conf_enabled := True\<rparr>
           in (None, self\<lparr>conf := Some c'\<rparr>, evs @ [write_conf_to_file c'])))"

text \<open>
  \<^verbatim>\<open>RepoModule.enable\<close>. The result is the exception raised, if any, the module after the
  call and the events of the call. After either branch of the confirmation the control
  reaches the last three statements: neither branch returns.
\<close>

function RepoModule_enable ::
  "externals \<Rightarrow> string \<Rightarrow> bool \<Rightarrow> bool \<Rightarrow> RepoModule
     \<Rightarrow> error option \<times> RepoModule \<times> event list" where
  "RepoModule_enable ext strm assumeyes assumeno self =
     (if strm \<notin> fst ` set (streams self)
      then (Some (Error (Msg NO_STREAM_ERR [FStr strm, FStr (rm_name self)])), self, [])
      else
        (let c = conf_or_new ext self;
             self1 = self\<lparr>conf := Some c\<rparr>
         in if conf_stream c \<noteq> None \<and> conf_stream c \<noteq> Some strm \<and> \<not> assumeyes
            then
              (let different = Log INFO (Msg DIFFERENT_STREAM_INFO [FStr (rm_name self)]);
                   skipping = Log INFO (Msg STREAM_NOT_ENABLED_ERR [FStr strm])
               in if assumeno then record_stream strm self1 [different, skipping]
                  else if userconfirm ext
                  then (case RepoModule_enable ext strm True assumeno self1 of
                          (Some e, self2, evs) \<Rightarrow> (Some e, self2, [different, UserConfirm] @ evs)
                        | (None, self2, evs) \<Rightarrow>
                            record_stream strm self2 ([different, UserConfirm] @ evs))
                  else record_stream strm self1 [different, UserConfirm, skipping])
            else record_stream strm self1 []))"
  by pat_completeness auto
termination
  by (relation "measure (\<lambda>(ext, strm, assumeyes, assumeno, self). if assumeyes then 0 else 1)")
     auto

text \<open>\<^verbatim>\<open>RepoModule.disable\<close>.\<close>

definition RepoModule_disable :: "externals \<Rightarrow> RepoModule \<Rightarrow> RepoModule \<times> event list" where
  "RepoModule_disable ext self =
     (let c = (conf_or_new ext self)\<lparr>conf_enabled := False\<rparr>
      in (self\<lparr>conf := Some c\<rparr>, [write_conf_to_file c]))"

text \<open>
  \<^verbatim>\<open>RepoModuleDict.enable\<close> and \<^verbatim>\<open>RepoModuleDict.disable\<close>: the result is the
  exception raised, if any, and the state the call leaves.
\<close>

definition log :: "level \<Rightarrow> msg_id \<Rightarrow> fmt_arg list \<Rightarrow> state \<Rightarrow> state" where
  "log l i args st = st\<lparr>events := events st @ [Log l (Msg i args)]\<rparr>"

definition RepoModuleDict_enable ::
  "externals \<Rightarrow> string \<Rightarrow> bool \<Rightarrow> bool \<Rightarrow> state \<Rightarrow> error option \<times> state" where
  "RepoModuleDict_enable ext pkg_spec assumeyes assumeno st =
     (case ModuleSubject_find_module_version ext pkg_spec (modules st) of
        Inl e \<Rightarrow> (Some e, st)
      | Inr None \<Rightarrow> (None, log ERROR NO_MODULE_ERR [FStr pkg_spec] st)
      | Inr (Some (module_version, nsvap)) \<Rightarrow>
          (case map_of (modules st) (name module_version) of
             None \<Rightarrow> (Some KeyError, st)
           | Some repo_module \<Rightarrow>
               (let (e, repo_module', evs) =
                      RepoModule_enable ext (stream module_version) assumeyes assumeno repo_module
                in (e, st\<lparr>modules := AList.update (name module_version) repo_module' (modules st),
                          events := events st @ evs\<rparr>))))"

definition RepoModuleDict_disable :: "externals \<Rightarrow> string \<Rightarrow> state \<Rightarrow> error option \<times> state" where
  "RepoModuleDict_disable ext pkg_spec st =
     (case ModuleSubject_find_module_version ext pkg_spec (modules st) of
        Inl e \<Rightarrow> (Some e, st)
      | Inr (Some (module_version, nsvap)) \<Rightarrow>
          (case map_of (modules st) (name module_version) of
             None \<Rightarrow> (Some AttributeError, st)
           | Some repo_module \<Rightarrow>
               (let (repo_module', evs) = RepoModule_disable ext repo_module
                in (None, st\<lparr>modules := AList.update (name module_version) repo_module' (modules st),
                             events := events st @ evs\<rparr>)))
      | Inr None \<Rightarrow>
          (case map_of (modules st) pkg_spec of
             None \<Rightarrow> (None, log WARNING NO_MODULE_ERR [FStr pkg_spec] st)
           | Some repo_module \<Rightarrow>
               (let (repo_module', evs) = RepoModule_disable ext repo_module
                in (None, st\<lparr>modules := AList.update pkg_spec repo_module' (modules st),
                             events := events st @ evs\<rparr>))))"

section \<open>Install and upgrade\<close>

text \<open>
  \<^verbatim>\<open>nevra\<close> and \<^verbatim>\<open>profile_nevra\<close>. The result of \<^verbatim>\<open>profile_nevra\<close> is a set; the model
  lists it without repetition, in the order of the artifacts.
\<close>

definition nevra :: "RepoModuleVersion \<Rightarrow> string list" where
  "nevra self = map replace_0colon (md_artifacts (module_metadata self))"

fun profile_nevra_loop :: "externals \<Rightarrow> string list \<Rightarrow> string list \<Rightarrow> error + string list" where
  "profile_nevra_loop ext rpms [] = Inr []"
| "profile_nevra_loop ext rpms (n # ns) =
     (case first_nevra ext n of
        None \<Rightarrow> Inl IndexError
      | Some (nm, evr) \<Rightarrow>
          (case profile_nevra_loop ext rpms ns of
             Inl e \<Rightarrow> Inl e
           | Inr result \<Rightarrow> Inr (if nm \<in> set rpms then (nm @ ''-'' @ evr) # result else result)))"

definition profile_nevra :: "externals \<Rightarrow> RepoModuleVersion \<Rightarrow> string \<Rightarrow> error + string list" where
  "profile_nevra ext self profile =
     (case map_of (md_profiles (module_metadata self)) profile of
        None \<Rightarrow> Inl KeyError
      | Some rpms \<Rightarrow> map_sum id remdups (profile_nevra_loop ext rpms (nevra self)))"

definition track :: "string \<Rightarrow> state \<Rightarrow> state" where
  "track n st = st\<lparr>repo_modules := repo_modules st @ [n]\<rparr>"

definition update_module :: "string \<Rightarrow> RepoModule \<Rightarrow> state \<Rightarrow> state" where
  "update_module n m st = st\<lparr>modules := AList.update n m (modules st)\<rparr>"

definition emit :: "event list \<Rightarrow> state \<Rightarrow> state" where
  "emit evs st = st\<lparr>events := events st @ evs\<rparr>"

text \<open>
  \<^verbatim>\<open>RepoModuleVersion.install\<close>. The requested profile is a string or \<^verbatim>\<open>None\<close>, and
  \<^verbatim>\<open>self.profiles\<close> is a list of strings.
\<close>

definition RepoModuleVersion_install ::
  "externals \<Rightarrow> RepoModuleVersion \<Rightarrow> string option \<Rightarrow> state \<Rightarrow> error option \<times> state" where
  "RepoModuleVersion_install ext self profile st =
     (case (case profile of None \<Rightarrow> None
            | Some p \<Rightarrow> if p \<in> set (profiles self) then Some p else None) of
        None \<Rightarrow> (Some (Error (Msg NO_PROFILE_ERR [fmt_opt profile, FList (profiles self)])), st)
      | Some p \<Rightarrow>
          (case map_of (modules st) (name self) of
             None \<Rightarrow> (Some AttributeError, st)
           | Some repo_module \<Rightarrow>
               (let st1 = update_module (name self)
                            (repo_module\<lparr>installed_repo_module_version := Some self,
                                         installed_profiles := installed_profiles repo_module @ [p]\<rparr>)
                            st
                in case profile_nevra ext self p of
                     Inl e \<Rightarrow> (Some e, st1)
                   | Inr nevras \<Rightarrow>
                       (None, track (name self)
                                (emit (map (\<lambda>single_nevra. BaseInstall single_nevra (repo self))
                                         nevras) st1)))))"



text \<open>\<^verbatim>\<open>RepoModuleDict.install\<close>.\<close>

fun install :: "externals \<Rightarrow> string list \<Rightarrow> bool \<Rightarrow> state \<Rightarrow> error option \<times> state" where
  "install ext [] autoenable st = (None, st)"
| "install ext (pkg_spec # pkg_specs) autoenable st =
     (case ModuleSubject_find_module_version ext pkg_spec (modules st) of
        Inl e \<Rightarrow> (Some e, st)
      | Inr None \<Rightarrow> install ext pkg_specs autoenable (log ERROR NO_MODULE_ERR [FStr pkg_spec] st)
      | Inr (Some (module_version, nsvap)) \<Rightarrow>
          (case (if autoenable then RepoModuleDict_enable ext (nsvap_name nsvap) True False st
                 else (None, st)) of
             (Some e, st1) \<Rightarrow> (Some e, st1)
           | (None, st1) \<Rightarrow>
               (case RepoModuleVersion_install ext module_version (nsvap_profile nsvap) st1 of
                  (Some e, st2) \<Rightarrow> (Some e, st2)
                | (None, st2) \<Rightarrow> install ext pkg_specs autoenable st2)))"


section \<open>The transaction tracker\<close>





text \<open>The configurations written, in order: the file name and the content.\<close>

fun writes :: "event list \<Rightarrow> (string \<times> ModuleConf) list" where
  "writes [] = []"
| "writes (WriteConf f c # evs) = (f, c) # writes evs"
| "writes (_ # evs) = writes evs"



section \<open>Well-formed registries\<close>

text \<open>
  What \<^verbatim>\<open>add\<close> establishes at every level of the registry: a version is stored
  under its own version number, in the stream of its own stream name, in the module of
  its own name; and a stream, made when its first version is added, holds a version.
\<close>

definition wf_stream :: "string \<Rightarrow> string \<Rightarrow> RepoModuleStream \<Rightarrow> bool" where
  "wf_stream nm s rs \<longleftrightarrow>
     versions rs \<noteq> [] \<and>
     list_all (\<lambda>(v, mv). name mv = nm \<and> stream mv = s \<and> version mv = v) (versions rs)"

definition wf_module :: "string \<Rightarrow> RepoModule \<Rightarrow> bool" where
  "wf_module nm m = list_all (\<lambda>(s, rs). wf_stream nm s rs) (streams m)"

definition wf_registry :: "(string \<times> RepoModule) list \<Rightarrow> bool" where
  "wf_registry d = list_all (\<lambda>(nm, m). wf_module nm m) d"

section \<open>A small registry\<close>

text \<open>
  The module \<open>foo\<close> with the streams \<open>1.0\<close> (versions 1 and 2) and \<open>2.0\<close> (version 1),
  the profiles \<open>default\<close> and \<open>web\<close>, and a persisted configuration that enables stream
  \<open>1.0\<close> with version 1 and the profile \<open>web\<close> installed.
\<close>

definition ex_md :: "string \<Rightarrow> int \<Rightarrow> ModuleMetadata" where
  "ex_md s v =
     \<lparr>md_name = ''foo'', md_stream = s, md_version = v,
      md_profiles = [(''web'', [''bar'', ''baz'']), (''default'', [''qux''])],
      md_artifacts = [''bar-0:1.0-1.noarch'', ''baz-0:2.0-1.noarch'', ''qux-0:1.0-1.noarch'']\<rparr>"

definition ex_version :: "string \<Rightarrow> int \<Rightarrow> RepoModuleVersion" where
  "ex_version s v = \<lparr>module_metadata = ex_md s v, repo = ''updates''\<rparr>"

definition ex_conf :: ModuleConf where
  "ex_conf =
     \<lparr>conf_name = ''foo'', conf_stream = Some ''1.0'', conf_version = Some 1,
      conf_profiles = [''web''], conf_enabled = True, conf_locked = False\<rparr>"

definition ex_foo :: "ModuleConf option \<Rightarrow> RepoModule" where
  "ex_foo c =
     \<lparr>streams =
        [(''1.0'', \<lparr>versions = [(1, ex_version ''1.0'' 1), (2, ex_version ''1.0'' 2)],
                   rms_stream = Some ''1.0''\<rparr>),
         (''2.0'', \<lparr>versions = [(1, ex_version ''2.0'' 1)], rms_stream = Some ''2.0''\<rparr>)],
      conf = c, rm_name = ''foo'', installed_profiles = [],
      installed_repo_module_version = None\<rparr>"

definition ex_state :: "ModuleConf option \<Rightarrow> state" where
  "ex_state c = \<lparr>modules = [(''foo'', ex_foo c)], repo_modules = [], saved = False, events = []\<rparr>"

text \<open>
  Stand-ins for the collaborators: a parser that knows a handful of specifiers, in the
  order of \<^verbatim>\<open>hawkey\<close>'s forms, and reads every other string as a bare name; the name
  and \<^verbatim>\<open>evr\<close> of the three artifacts; a new configuration with nothing set; a user who
  declines.
\<close>

definition ex_nevra :: "string \<Rightarrow> string option \<Rightarrow> string option \<Rightarrow> NEVRA" where
  "ex_nevra n v r = \<lparr>nevra_name = n, nevra_version = v, nevra_release = r, nevra_arch = None\<rparr>"

definition ex_possibilities :: "string \<Rightarrow> NEVRA list" where
  "ex_possibilities s =
     (if s = ''foo-2.0''
      then [ex_nevra ''foo'' (Some ''2.0'') None, ex_nevra ''foo-2.0'' None None]
      else if s = ''foo-1.0-2''
      then [ex_nevra ''foo'' (Some ''1.0'') (Some ''2''), ex_nevra ''foo-1.0'' (Some ''2'') None,
            ex_nevra ''foo-1.0-2'' None None]
      else if s = ''foo-1.0-rc1''
      then [ex_nevra ''foo'' (Some ''1.0'') (Some ''rc1''), ex_nevra ''foo-1.0'' (Some ''rc1'') None,
            ex_nevra ''foo-1.0-rc1'' None None]
      else [ex_nevra s None None])"

definition ex_first_nevra :: "string \<Rightarrow> (string \<times> string) option" where
  "ex_first_nevra = map_of
     [(''bar-1.0-1.noarch'', (''bar'', ''1.0-1'')),
      (''baz-2.0-1.noarch'', (''baz'', ''2.0-1'')),
      (''qux-1.0-1.noarch'', (''qux'', ''1.0-1''))]"

definition ex_conf_init :: "string \<Rightarrow> ModuleConf" where
  "ex_conf_init n =
     \<lparr>conf_name = n, conf_stream = None, conf_version = None, conf_profiles = [],
      conf_enabled = False, conf_locked = False\<rparr>"

definition ex_ext :: externals where
  "ex_ext =
     \<lparr>nevra_possibilities = ex_possibilities, first_nevra = ex_first_nevra,
      ModuleConf_init = ex_conf_init, userconfirm = False\<rparr>"


section \<open>Properties\<close>

subsection \<open>The small registry is what the loaders build\<close>

lemma ex_state_loaded:
  "read_all_modules [ex_conf]
     (load_modules ''updates'' [ex_md ''1.0'' 1, ex_md ''1.0'' 2, ex_md ''2.0'' 1]
        RepoModuleDict_init) = ex_state (Some ex_conf)"
  by (simp add: RepoModuleDict_init_def RepoModuleDict_add_def RepoModule_add_def
      RepoModuleStream_add_def RepoModule_init_def RepoModuleStream_init_def setdefault_def
      ex_state_def ex_foo_def ex_version_def ex_md_def ex_conf_def name_def stream_def
      version_def)

subsection \<open>Enable and disable\<close>

lemma conf_or_new_Some [simp]: "conf m = Some c \<Longrightarrow> conf_or_new ext m = c"
  by (simp add: conf_or_new_def)

lemma record_stream_Some:
  "conf m = Some c \<Longrightarrow>
   record_stream strm m evs =
     (None, m\<lparr>conf := Some (c\<lparr>conf_stream := Some strm, conf_enabled := True\<rparr>)\<rparr>,
      evs @ [write_conf_to_file (c\<lparr>conf_stream := Some strm, conf_enabled := True\<rparr>)])"
  by (simp add: record_stream_def Let_def)

lemma RepoModule_enable_yes:
  "RepoModule_enable ext strm True an m =
     (if strm \<notin> fst ` set (streams m)
      then (Some (Error (Msg NO_STREAM_ERR [FStr strm, FStr (rm_name m)])), m, [])
      else record_stream strm (m\<lparr>conf := Some (conf_or_new ext m)\<rparr>) [])"
  by (simp add: Let_def)

text \<open>
  \<^verbatim>\<open>RepoModule.enable\<close> without its recursion. Whatever the answers, a call that does
  not raise leaves the requested stream recorded and enabled; the branches differ in what
  is logged, in whether the user is asked, and in the number of writes.
\<close>

lemma RepoModule_enable_closed:
  "RepoModule_enable ext strm ay an m =
     (if strm \<notin> fst ` set (streams m)
      then (Some (Error (Msg NO_STREAM_ERR [FStr strm, FStr (rm_name m)])), m, [])
      else
        (let c = conf_or_new ext m;
             c' = c\<lparr>conf_stream := Some strm, conf_enabled := True\<rparr>;
             different = Log INFO (Msg DIFFERENT_STREAM_INFO [FStr (rm_name m)]);
             skipping = Log INFO (Msg STREAM_NOT_ENABLED_ERR [FStr strm]);
             w = write_conf_to_file c'
         in (None, m\<lparr>conf := Some c'\<rparr>,
             if conf_stream c \<noteq> None \<and> conf_stream c \<noteq> Some strm \<and> \<not> ay
             then (if an then [different, skipping, w]
                   else if userconfirm ext then [different, UserConfirm, w, w]
                   else [different, UserConfirm, skipping, w])
             else [w])))"
  by (subst RepoModule_enable.simps) (simp add: Let_def RepoModule_enable_yes record_stream_Some)

declare RepoModule_enable.simps [simp del]

text \<open>
  C1. The claim: when a module is enabled on one stream and \<^verbatim>\<open>enable\<close> is asked for
  another with \<^verbatim>\<open>assumeno\<close> set, the call changes nothing and the persisted stream stays.
  The code at that input: \<open>foo\<close> is enabled on \<open>1.0\<close>, \<^verbatim>\<open>enable("2.0", False, True)\<close> logs
  that it enables a different stream and that the stream is not enabled and is skipped,
  and then records \<open>2.0\<close> all the same and writes it to \<^verbatim>\<open>foo.module\<close>.
\<close>

theorem enable_assumeno_records_other_stream:
  "RepoModule_enable ex_ext ''2.0'' False True (ex_foo (Some ex_conf)) =
     (None,
      ex_foo (Some (ex_conf\<lparr>conf_stream := Some ''2.0''\<rparr>)),
      [Log INFO (Msg DIFFERENT_STREAM_INFO [FStr ''foo'']),
       Log INFO (Msg STREAM_NOT_ENABLED_ERR [FStr ''2.0'']),
       WriteConf ''foo.module'' (ex_conf\<lparr>conf_stream := Some ''2.0''\<rparr>)])"
  by (simp add: RepoModule_enable_closed ex_foo_def ex_conf_def write_conf_to_file_def Let_def)

text \<open>
  C7. Enabling the stream that is already enabled changes nothing in the module and asks
  nothing. And for any module, stream and answers: a second \<^verbatim>\<open>enable\<close> of the same
  stream, right after the first, ends as the first did (it raises the same error, or
  neither raises), leaves the module and its configuration as the first call left them,
  asks nothing, and what it writes is the configuration the first call left.
\<close>

theorem enable_idempotent:
  "(conf m = Some c \<and> conf_stream c = Some strm \<and> conf_enabled c \<longrightarrow>
      fst (snd (RepoModule_enable ext strm ay an m)) = m \<and>
      UserConfirm \<notin> set (snd (snd (RepoModule_enable ext strm ay an m)))) \<and>
   (let r1 = RepoModule_enable ext strm ay an m;
        r2 = RepoModule_enable ext' strm ay' an' (fst (snd r1))
    in fst r2 = fst r1 \<and> fst (snd r2) = fst (snd r1) \<and>
       UserConfirm \<notin> set (snd (snd r2)) \<and>
       (\<forall>f c'. WriteConf f c' \<in> set (snd (snd r2)) \<longrightarrow> conf (fst (snd r1)) = Some c'))"
proof -
  have same: "fst (snd (RepoModule_enable ext strm ay an m)) = m \<and>
      UserConfirm \<notin> set (snd (snd (RepoModule_enable ext strm ay an m)))"
    if "conf m = Some c" "conf_stream c = Some strm" "conf_enabled c"
    using that
    by (cases c; cases m) (simp add: RepoModule_enable_closed Let_def write_conf_to_file_def)
  have twice: "let r1 = RepoModule_enable ext strm ay an m;
        r2 = RepoModule_enable ext' strm ay' an' (fst (snd r1))
    in fst r2 = fst r1 \<and> fst (snd r2) = fst (snd r1) \<and>
       UserConfirm \<notin> set (snd (snd r2)) \<and>
       (\<forall>f c'. WriteConf f c' \<in> set (snd (snd r2)) \<longrightarrow> conf (fst (snd r1)) = Some c')"
    by (simp add: RepoModule_enable_closed Let_def write_conf_to_file_def)
  from same twice show ?thesis by blast
qed

theorem enable_idempotent_witness:
  "conf (ex_foo (Some ex_conf)) = Some ex_conf \<and> conf_stream ex_conf = Some ''1.0'' \<and>
   conf_enabled ex_conf \<and>
   fst (snd (RepoModule_enable ex_ext ''1.0'' False False (ex_foo (Some ex_conf)))) =
     ex_foo (Some ex_conf) \<and>
   UserConfirm \<notin> set (snd (snd (RepoModule_enable ex_ext ''1.0'' False False (ex_foo (Some ex_conf)))))"
  using enable_idempotent [where m = "ex_foo (Some ex_conf)" and c = ex_conf and strm = "''1.0''"
      and ext = ex_ext and ay = False and an = False]
  by (simp add: ex_foo_def ex_conf_def)

text \<open>
  C8. \<^verbatim>\<open>disable\<close> clears the enabled flag of the configuration (made new if there was
  none) and writes it; the stream, the locked flag, the version and the profiles of the
  configuration, and the rest of the module, are as before. Enabling the same stream
  again asks nothing and gives back the configuration with the flag set: the version, the
  lock and the profiles it had before \<^verbatim>\<open>disable\<close>.
\<close>

theorem disable_preserves_history:
  "(let c0 = conf_or_new ext m; (m', evs) = RepoModule_disable ext m
    in m' = m\<lparr>conf := Some (c0\<lparr>conf_enabled := False\<rparr>)\<rparr> \<and>
       evs = [write_conf_to_file (c0\<lparr>conf_enabled := False\<rparr>)] \<and>
       (\<exists>c'. conf m' = Some c' \<and> \<not> conf_enabled c' \<and> conf_stream c' = conf_stream c0 \<and>
             conf_locked c' = conf_locked c0 \<and> conf_version c' = conf_version c0 \<and>
             conf_profiles c' = conf_profiles c0 \<and> conf_name c' = conf_name c0)) \<and>
   (conf m = Some c \<and> conf_stream c = Some strm \<and> strm \<in> fst ` set (streams m) \<longrightarrow>
      RepoModule_enable ext' strm ay an (fst (RepoModule_disable ext m)) =
        (None, m\<lparr>conf := Some (c\<lparr>conf_enabled := True\<rparr>)\<rparr>,
         [write_conf_to_file (c\<lparr>conf_enabled := True\<rparr>)]))"
proof -
  have reenable: "RepoModule_enable ext' strm ay an (fst (RepoModule_disable ext m)) =
        (None, m\<lparr>conf := Some (c\<lparr>conf_enabled := True\<rparr>)\<rparr>,
         [write_conf_to_file (c\<lparr>conf_enabled := True\<rparr>)])"
    if "conf m = Some c" "conf_stream c = Some strm" "strm \<in> fst ` set (streams m)"
    using that
    by (cases c; cases m) (simp add: RepoModule_disable_def RepoModule_enable_closed Let_def)
  show ?thesis
    using reenable by (simp add: RepoModule_disable_def Let_def)
qed

theorem disable_preserves_history_witness:
  "conf (ex_foo (Some ex_conf)) = Some ex_conf \<and> conf_stream ex_conf = Some ''1.0'' \<and>
   ''1.0'' \<in> fst ` set (streams (ex_foo (Some ex_conf))) \<and>
   fst (RepoModule_disable ex_ext (ex_foo (Some ex_conf))) =
     ex_foo (Some (ex_conf\<lparr>conf_enabled := False\<rparr>)) \<and>
   RepoModule_enable ex_ext ''1.0'' False False (fst (RepoModule_disable ex_ext (ex_foo (Some ex_conf)))) =
     (None, ex_foo (Some ex_conf), [WriteConf ''foo.module'' ex_conf])"
  using disable_preserves_history [where m = "ex_foo (Some ex_conf)" and c = ex_conf
      and strm = "''1.0''" and ext = ex_ext and ext' = ex_ext and ay = False and an = False]
  by (simp add: ex_foo_def ex_conf_def write_conf_to_file_def Let_def RepoModule_disable_def)

subsection \<open>The identifier parser\<close>

text \<open>\<^verbatim>\<open>int(str(n))\<close> is \<open>n\<close>: what \<^verbatim>\<open>str\<close> prints, \<^verbatim>\<open>int\<close> reads back.\<close>

declare str_nat.simps [simp del]

lemma digit_of_digit_char: "d < 10 \<Longrightarrow> digit_of (digit_char d) = Some d"
proof -
  assume "d < 10"
  then have "d \<in> {0, 1, 2, 3, 4, 5, 6, 7, 8, 9}" by auto
  then show ?thesis
    by (auto simp: digit_of_def digit_char_def)
qed

lemma digit_char_plain:
  "d < 10 \<Longrightarrow> \<not> isspace (digit_char d) \<and> digit_char d \<noteq> CHR ''-'' \<and> digit_char d \<noteq> CHR ''+''"
proof -
  assume "d < 10"
  then have "d \<in> {0, 1, 2, 3, 4, 5, 6, 7, 8, 9}" by auto
  then show ?thesis
    by (auto simp: isspace_def digit_char_def)
qed

lemma digits_val_append:
  "digits_val acc (xs @ ys) =
     (case digits_val acc xs of None \<Rightarrow> None | Some a \<Rightarrow> digits_val a ys)"
  by (induction xs arbitrary: acc) (auto split: option.splits)

lemma digits_val_str_nat: "digits_val 0 (str_nat n) = Some n"
proof (induction n rule: str_nat.induct)
  case (1 n)
  show ?case
  proof (cases "n < 10")
    case True
    then show ?thesis
      by (subst str_nat.simps) (simp add: digit_of_digit_char)
  next
    case False
    with 1 have "digits_val 0 (str_nat (n div 10)) = Some (n div 10)" by simp
    with False show ?thesis
      by (subst str_nat.simps) (simp add: digits_val_append digit_of_digit_char)
  qed
qed

lemma str_nat_shape:
  "str_nat n \<noteq> [] \<and> (\<forall>c \<in> set (str_nat n). \<not> isspace c \<and> c \<noteq> CHR ''-'' \<and> c \<noteq> CHR ''+'')"
proof (induction n rule: str_nat.induct)
  case (1 n)
  show ?case
  proof (cases "n < 10")
    case True
    then show ?thesis
      by (subst str_nat.simps, subst (2) str_nat.simps) (simp add: digit_char_plain)
  next
    case False
    with 1 have "str_nat (n div 10) \<noteq> [] \<and>
      (\<forall>c \<in> set (str_nat (n div 10)). \<not> isspace c \<and> c \<noteq> CHR ''-'' \<and> c \<noteq> CHR ''+'')"
      by simp
    with False show ?thesis
      by (subst str_nat.simps, subst (2) str_nat.simps) (simp add: digit_char_plain)
  qed
qed

lemma strip_plain: "\<forall>c \<in> set s. \<not> isspace c \<Longrightarrow> strip s = s"
proof -
  assume a: "\<forall>c \<in> set s. \<not> isspace c"
  then have "dropWhile isspace s = s" by (cases s) auto
  moreover from a have "dropWhile isspace (rev s) = rev s" by (cases "rev s") auto
  ultimately show ?thesis by (simp add: strip_def)
qed

lemma py_int_py_str: "py_int (py_str i) = Some i"
proof (cases "i < 0")
  case True
  have "\<forall>c \<in> set (CHR ''-'' # str_nat (nat (- i))). \<not> isspace c"
    using str_nat_shape [of "nat (- i)"] by (simp add: isspace_def)
  then have "strip (py_str i) = CHR ''-'' # str_nat (nat (- i))"
    using True by (simp add: strip_plain py_str_def)
  then show ?thesis
    using True str_nat_shape [of "nat (- i)"]
    by (simp add: py_int_def nat_of_digits_def digits_val_str_nat)
next
  case False
  have s: "strip (py_str i) = str_nat (nat i)"
    using False str_nat_shape [of "nat i"] by (simp add: strip_plain py_str_def)
  obtain c cs where cs: "str_nat (nat i) = c # cs"
    using str_nat_shape [of "nat i"] by (cases "str_nat (nat i)") auto
  have "c \<noteq> CHR ''-''" "c \<noteq> CHR ''+''"
    using str_nat_shape [of "nat i"] cs by auto
  moreover have "nat_of_digits (c # cs) = Some (nat i)"
    using digits_val_str_nat [of "nat i"] cs by (simp add: nat_of_digits_def)
  ultimately show ?thesis
    using False s cs by (simp add: py_int_def)
qed

lemma py_str_nonempty: "py_str i \<noteq> []"
  using str_nat_shape by (simp add: py_str_def)


lemma release_normalised:
  "release_and_int_or_None (Some (py_str n)) = Inr (and_or_None (Some n))"
  by (simp add: release_and_int_or_None_def py_int_py_str py_str_nonempty and_or_None_def)

lemma and_or_None_idem [simp]: "and_or_None (and_or_None v) = and_or_None v"
  by (simp add: and_or_None_def split: option.splits)

text \<open>
  The loop keeps the candidates whose release is absent or is read by \<^verbatim>\<open>int\<close>, in
  their order, and never raises: the second \<^verbatim>\<open>int\<close> reads what \<^verbatim>\<open>str\<close> has printed.
\<close>

lemma nsvap_loop_filter:
  "nsvap_loop profile possibilities =
     Inr (map (\<lambda>i. \<lparr>nsvap_name = nevra_name i, nsvap_stream = nevra_version i,
                    nsvap_version = and_or_None (Option.bind (nevra_release i) py_int),
                    nsvap_arch = nevra_arch i, nsvap_profile = profile\<rparr>)
            (filter (\<lambda>i. nevra_release i = None \<or> Option.bind (nevra_release i) py_int \<noteq> None)
               possibilities))"
proof (induction possibilities)
  case Nil
  show ?case by simp
next
  case (Cons i possibilities)
  show ?case
  proof (cases "nevra_release i")
    case None
    with Cons show ?thesis
      by (simp add: release_and_int_or_None_def NSVAP_init_def and_or_None_def)
  next
    case (Some r)
    with Cons show ?thesis
      by (cases "py_int r") (simp_all add: release_normalised NSVAP_init_def)
  qed
qed

lemma split_profile_no_slash: "CHR ''/'' \<notin> set pkg_spec \<Longrightarrow> split_profile pkg_spec = (pkg_spec, None)"
  by (simp add: split_profile_def)

lemma get_nsvap_possibilities_filter:
  "get_nsvap_possibilities ext pkg_spec =
     Inr (map (\<lambda>i. \<lparr>nsvap_name = nevra_name i, nsvap_stream = nevra_version i,
                    nsvap_version = and_or_None (Option.bind (nevra_release i) py_int),
                    nsvap_arch = nevra_arch i, nsvap_profile = snd (split_profile pkg_spec)\<rparr>)
            (filter (\<lambda>i. nevra_release i = None \<or> Option.bind (nevra_release i) py_int \<noteq> None)
               (nevra_possibilities ext (fst (split_profile pkg_spec)))))"
  by (simp add: get_nsvap_possibilities_def nsvap_loop_filter split: prod.splits)




subsection \<open>Resolution\<close>

lemma find_locked:
  assumes "map_of d nm = Some m" "conf m = Some c" "conf_locked c" "conf_version c = Some V"
    "s \<noteq> []" "map_of (streams m) s = Some rs"
  shows "find_module_version d nm (Some s) W arch = Inr (map_of (versions rs) V)"
  using assms by (simp add: find_module_version_def)

lemma wf_registry_lookup:
  assumes "wf_registry d" "map_of d nm = Some m" "map_of (streams m) s = Some rs"
    "map_of (versions rs) v = Some mv"
  shows "name mv = nm \<and> stream mv = s \<and> version mv = v"
proof -
  from assms(2) have "(nm, m) \<in> set d" by (rule map_of_SomeD)
  with assms(1) have "wf_module nm m" by (auto simp: wf_registry_def list_all_iff)
  moreover from assms(3) have "(s, rs) \<in> set (streams m)" by (rule map_of_SomeD)
  ultimately have "wf_stream nm s rs" by (auto simp: wf_module_def list_all_iff)
  moreover from assms(4) have "(v, mv) \<in> set (versions rs)" by (rule map_of_SomeD)
  ultimately show ?thesis by (auto simp: wf_stream_def list_all_iff)
qed

text \<open>
  C2. When the module's configuration is locked and has a version \<open>V\<close>, and the stream
  asked for holds a version under \<open>V\<close>, \<^verbatim>\<open>find_module_version\<close> returns that version
  object for every requested version \<open>W\<close> (given or not, equal to \<open>V\<close> or not). In a
  well-formed registry the object's name, stream and version are the module's name, the
  stream asked for and \<open>V\<close>.
\<close>

theorem lock_overrides_requested_version:
  assumes "map_of d nm = Some m" "conf m = Some c" "conf_locked c" "conf_version c = Some V"
    "s \<noteq> []" "map_of (streams m) s = Some rs" "map_of (versions rs) V = Some mv"
  shows "find_module_version d nm (Some s) W arch = Inr (Some mv) \<and>
         (wf_registry d \<longrightarrow> name mv = nm \<and> stream mv = s \<and> version mv = V)"
  using assms wf_registry_lookup [OF _ assms(1) assms(6) assms(7)]
  by (simp add: find_locked)

lemma ex_wf: "wf_registry (modules (ex_state c))"
  by (simp add: wf_registry_def wf_module_def wf_stream_def ex_state_def ex_foo_def
      ex_version_def ex_md_def name_def stream_def version_def)

lemma ex_lookup_foo: "map_of (modules (ex_state c)) ''foo'' = Some (ex_foo c)"
  by (simp add: ex_state_def)

theorem lock_overrides_requested_version_witness:
  "find_module_version (modules (ex_state (Some (ex_conf\<lparr>conf_locked := True\<rparr>)))) ''foo''
     (Some ''1.0'') (Some 2) None = Inr (Some (ex_version ''1.0'' 1)) \<and>
   version (ex_version ''1.0'' 1) = 1 \<and>
   conf_locked (ex_conf\<lparr>conf_locked := True\<rparr>) \<and>
   conf_version (ex_conf\<lparr>conf_locked := True\<rparr>) = Some 1"
  using lock_overrides_requested_version
    [where d = "modules (ex_state (Some (ex_conf\<lparr>conf_locked := True\<rparr>)))" and nm = "''foo''"
       and m = "ex_foo (Some (ex_conf\<lparr>conf_locked := True\<rparr>))"
       and c = "ex_conf\<lparr>conf_locked := True\<rparr>" and V = 1 and s = "''1.0''"
       and rs = "\<lparr>versions = [(1, ex_version ''1.0'' 1), (2, ex_version ''1.0'' 2)],
                   rms_stream = Some ''1.0''\<rparr>"
       and mv = "ex_version ''1.0'' 1" and W = "Some 2" and arch = None]
    ex_wf [of "Some (ex_conf\<lparr>conf_locked := True\<rparr>)"]
  by (simp add: ex_lookup_foo) (simp add: ex_foo_def ex_conf_def)

text \<open>
  C4, as stated, fails on a locked module: \<open>foo\<close> holds the versions 1 and 2 of the stream
  \<open>1.0\<close> and is locked on version 1; the query \<open>(foo, 1.0, 2)\<close> is answered with the
  version 1.
\<close>

theorem find_version_locked_counterexample:
  "find_module_version (modules (ex_state (Some (ex_conf\<lparr>conf_locked := True\<rparr>)))) ''foo''
     (Some ''1.0'') (Some 2) None = Inr (Some (ex_version ''1.0'' 1)) \<and>
   version (ex_version ''1.0'' 1) \<noteq> 2 \<and>
   map_of (versions \<lparr>versions = [(1, ex_version ''1.0'' 1), (2, ex_version ''1.0'' 2)],
                      rms_stream = Some ''1.0''\<rparr>) 2 = Some (ex_version ''1.0'' 2) \<and>
   map_of (streams (ex_foo (Some (ex_conf\<lparr>conf_locked := True\<rparr>)))) ''1.0'' =
     Some \<lparr>versions = [(1, ex_version ''1.0'' 1), (2, ex_version ''1.0'' 2)],
           rms_stream = Some ''1.0''\<rparr>"
  by (simp add: find_module_version_def ex_state_def ex_foo_def ex_conf_def ex_version_def
      ex_md_def version_def)

text \<open>
  C4, amended. For a query with a non-empty stream and a non-zero version, on a module
  that is not locked on another version: \<^verbatim>\<open>find_module_version\<close> never raises; it
  returns what the registry holds under that name, stream and version, and \<open>None\<close> when
  the name, the stream or the version is missing. In a well-formed registry the name,
  stream and version of the object returned are those of the query.
\<close>

theorem find_version_matches_query:
  assumes "s \<noteq> []" "v \<noteq> 0"
    "\<forall>m c V. map_of d nm = Some m \<and> conf m = Some c \<and> conf_locked c \<and> conf_version c = Some V
       \<longrightarrow> V = v"
  shows "find_module_version d nm (Some s) (Some v) arch =
           Inr (case map_of d nm of
                  None \<Rightarrow> None
                | Some m \<Rightarrow>
                    (case map_of (streams m) s of
                       None \<Rightarrow> None
                     | Some rs \<Rightarrow> map_of (versions rs) v)) \<and>
         (wf_registry d \<longrightarrow>
            (\<forall>mv. find_module_version d nm (Some s) (Some v) arch = Inr (Some mv) \<longrightarrow>
               name mv = nm \<and> stream mv = s \<and> version mv = v))"
proof -
  have r: "find_module_version d nm (Some s) (Some v) arch =
           Inr (case map_of d nm of
                  None \<Rightarrow> None
                | Some m \<Rightarrow>
                    (case map_of (streams m) s of
                       None \<Rightarrow> None
                     | Some rs \<Rightarrow> map_of (versions rs) v))"
    using assms
    by (auto simp: find_module_version_def and_or_None_def split: option.splits)
  have "name mv = nm \<and> stream mv = s \<and> version mv = v"
    if "wf_registry d" "find_module_version d nm (Some s) (Some v) arch = Inr (Some mv)" for mv
    using that wf_registry_lookup [of d nm _ s _ v mv] unfolding r
    by (auto split: option.splits)
  with r show ?thesis by blast
qed


theorem find_version_matches_query_witness:
  "find_module_version (modules (ex_state (Some ex_conf))) ''foo'' (Some ''1.0'') (Some 2) None =
     Inr (Some (ex_version ''1.0'' 2)) \<and>
   name (ex_version ''1.0'' 2) = ''foo'' \<and> stream (ex_version ''1.0'' 2) = ''1.0'' \<and>
   version (ex_version ''1.0'' 2) = 2 \<and>
   find_module_version (modules (ex_state (Some ex_conf))) ''foo'' (Some ''1.0'') (Some 7) None =
     Inr None \<and>
   wf_registry (modules (ex_state (Some ex_conf))) \<and> \<not> conf_locked ex_conf"
  using find_version_matches_query
    [where d = "modules (ex_state (Some ex_conf))" and nm = "''foo''" and s = "''1.0''"
       and v = 2 and arch = None]
    find_version_matches_query
    [where d = "modules (ex_state (Some ex_conf))" and nm = "''foo''" and s = "''1.0''"
       and v = 7 and arch = None]
    ex_wf [of "Some ex_conf"]
  by (simp add: ex_lookup_foo) (simp add: ex_foo_def ex_conf_def)

text \<open>
  C5, as stated, fails: for the module \<open>foo\<close>, which has no stream \<open>3.0\<close>, and for the
  unknown module \<open>bar\<close>, \<^verbatim>\<open>find_module_version\<close> gives the caller the same \<open>None\<close>.
\<close>

theorem missing_stream_is_plain_not_found_counterexample:
  "map_of (modules (ex_state None)) ''foo'' = Some (ex_foo None) \<and>
   map_of (streams (ex_foo None)) ''3.0'' = None \<and>
   map_of (modules (ex_state None)) ''bar'' = None \<and>
   find_module_version (modules (ex_state None)) ''foo'' (Some ''3.0'') None None = Inr None \<and>
   find_module_version (modules (ex_state None)) ''bar'' (Some ''3.0'') None None = Inr None"
  by (simp add: find_module_version_def ex_state_def ex_foo_def)

text \<open>
  C5, amended. For a module of the registry and a stream it does not hold,
  \<^verbatim>\<open>find_module_version\<close> returns \<open>None\<close> without raising, as it does for a name the
  registry does not hold. The error \<^verbatim>\<open>No such stream\<close> is raised by
  \<^verbatim>\<open>RepoModule.enable\<close>, which leaves the module as it is.
\<close>

theorem missing_stream_is_plain_not_found:
  assumes "map_of d nm = Some m" "s \<noteq> []" "map_of (streams m) s = None"
  shows "find_module_version d nm (Some s) v arch = Inr None \<and>
         (map_of d nm' = None \<longrightarrow> find_module_version d nm' strm' v' arch' = Inr None) \<and>
         RepoModule_enable ext s ay an m =
           (Some (Error (Msg NO_STREAM_ERR [FStr s, FStr (rm_name m)])), m, [])"
proof -
  from assms(3) have "s \<notin> fst ` set (streams m)"
    by (simp add: map_of_eq_None_iff)
  then have "RepoModule_enable ext s ay an m =
           (Some (Error (Msg NO_STREAM_ERR [FStr s, FStr (rm_name m)])), m, [])"
    by (simp add: RepoModule_enable_closed)
  moreover from assms have "find_module_version d nm (Some s) v arch = Inr None"
    by (simp add: find_module_version_def)
  moreover have "find_module_version d nm' strm' v' arch' = Inr None" if "map_of d nm' = None"
    using that by (simp add: find_module_version_def)
  ultimately show ?thesis by blast
qed

theorem missing_stream_is_plain_not_found_witness:
  "map_of (modules (ex_state None)) ''foo'' = Some (ex_foo None) \<and>
   map_of (streams (ex_foo None)) ''3.0'' = None \<and>
   find_module_version (modules (ex_state None)) ''foo'' (Some ''3.0'') (Some 1) None = Inr None \<and>
   RepoModule_enable ex_ext ''3.0'' True False (ex_foo None) =
     (Some (Error (Msg NO_STREAM_ERR [FStr ''3.0'', FStr ''foo''])), ex_foo None, [])"
  using missing_stream_is_plain_not_found
    [where d = "modules (ex_state None)" and nm = "''foo''" and m = "ex_foo None"
       and s = "''3.0''" and v = "Some 1" and arch = None and ext = ex_ext and ay = True
       and an = False]
  by (simp add: ex_lookup_foo) (simp add: ex_foo_def)

subsection \<open>Install\<close>

lemma find_first_Some:
  "find_first d ps = Inr (Some (mv, n)) \<Longrightarrow>
   n \<in> set ps \<and>
   find_module_version d (nsvap_name n) (nsvap_stream n) (nsvap_version n) (nsvap_arch n) =
     Inr (Some mv)"
  by (induction ps) (auto split: sum.splits option.splits)

lemma find_module_version_Some:
  "find_module_version d nm strm v a = Inr (Some mv) \<Longrightarrow> \<exists>m. map_of d nm = Some m"
  by (cases "map_of d nm") (simp_all add: find_module_version_def)

lemma resolved_profile:
  assumes "ModuleSubject_find_module_version ext pkg_spec d = Inr (Some (mv, nsvap))"
  shows "nsvap_profile nsvap = snd (split_profile pkg_spec) \<and>
         (\<exists>m. map_of d (nsvap_name nsvap) = Some m)"
proof -
  from assms obtain ps where ps: "get_nsvap_possibilities ext pkg_spec = Inr ps"
    and ff: "find_first d ps = Inr (Some (mv, nsvap))"
    by (auto simp: ModuleSubject_find_module_version_def split: sum.splits)
  from ff have "nsvap \<in> set ps" and
    "find_module_version d (nsvap_name nsvap) (nsvap_stream nsvap) (nsvap_version nsvap)
       (nsvap_arch nsvap) = Inr (Some mv)"
    using find_first_Some by blast+
  moreover from ps have "\<forall>n \<in> set ps. nsvap_profile n = snd (split_profile pkg_spec)"
    by (auto simp: get_nsvap_possibilities_filter)
  ultimately show ?thesis
    using find_module_version_Some by blast
qed


lemma install_None:
  "RepoModuleVersion_install ext mv None st =
     (Some (Error (Msg NO_PROFILE_ERR [FNone, FList (profiles mv)])), st)"
  by (simp add: RepoModuleVersion_install_def)

lemma RepoModule_enable_no_install:
  "BaseInstall n r \<notin> set (snd (snd (RepoModule_enable ext strm ay an m)))"
  by (simp add: RepoModule_enable_closed Let_def write_conf_to_file_def)

lemma RepoModuleDict_enable_frame:
  "repo_modules (snd (RepoModuleDict_enable ext pkg_spec ay an st)) = repo_modules st \<and>
   (BaseInstall n r \<in> set (events (snd (RepoModuleDict_enable ext pkg_spec ay an st)))
      \<longrightarrow> BaseInstall n r \<in> set (events st))"
proof (cases "ModuleSubject_find_module_version ext pkg_spec (modules st)")
  case (Inl e)
  then show ?thesis by (simp add: RepoModuleDict_enable_def)
next
  case (Inr found)
  show ?thesis
  proof (cases found)
    case None
    with Inr show ?thesis by (simp add: RepoModuleDict_enable_def log_def)
  next
    case (Some p)
    obtain mv nsvap where p: "p = (mv, nsvap)" by (cases p)
    show ?thesis
    proof (cases "map_of (modules st) (name mv)")
      case None
      with Inr Some p show ?thesis by (simp add: RepoModuleDict_enable_def)
    next
      case (Some m)
      obtain e m' evs where r: "RepoModule_enable ext (stream mv) ay an m = (e, m', evs)"
        by (cases "RepoModule_enable ext (stream mv) ay an m")
      have "BaseInstall n r \<notin> set evs"
        using RepoModule_enable_no_install [of n r ext "stream mv" ay an m] r by simp
      with Inr \<open>found = Some p\<close> p Some r show ?thesis
        by (simp add: RepoModuleDict_enable_def)
    qed
  qed
qed

text \<open>
  C10. For a spec without \<^verbatim>\<open>/\<close>: whenever the spec resolves, the identifier it
  resolves with has no profile, \<^verbatim>\<open>RepoModuleVersion.install\<close> with that profile raises
  the no-such-profile error in every state (the requested profile \<^verbatim>\<open>None\<close>, and the
  profiles of the version), and \<^verbatim>\<open>RepoModuleDict.install\<close> raises: without
  \<^verbatim>\<open>autoenable\<close> that error, leaving the state as it was. Resolved or not, installing
  the spec hands no package to the engine and registers no module with the tracker.
\<close>

theorem install_without_profile_fails:
  assumes "CHR ''/'' \<notin> set pkg_spec"
  shows "(\<forall>mv nsvap.
            ModuleSubject_find_module_version ext pkg_spec (modules st) = Inr (Some (mv, nsvap)) \<longrightarrow>
              nsvap_profile nsvap = None \<and>
              RepoModuleVersion_install ext mv (nsvap_profile nsvap) st' =
                (Some (Error (Msg NO_PROFILE_ERR [FNone, FList (profiles mv)])), st') \<and>
              install ext (pkg_spec # pkg_specs) False st =
                (Some (Error (Msg NO_PROFILE_ERR [FNone, FList (profiles mv)])), st) \<and>
              fst (install ext (pkg_spec # pkg_specs) True st) \<noteq> None) \<and>
         repo_modules (snd (install ext [pkg_spec] autoenable st)) = repo_modules st \<and>
         (\<forall>n r. BaseInstall n r \<in> set (events (snd (install ext [pkg_spec] autoenable st))) \<longrightarrow>
                  BaseInstall n r \<in> set (events st))"
proof -
  have prof: "nsvap_profile nsvap = None"
    if "ModuleSubject_find_module_version ext pkg_spec (modules st) = Inr (Some (mv, nsvap))"
    for mv nsvap
    using resolved_profile [OF that] assms by (simp add: split_profile_no_slash)
  have resolved: "nsvap_profile nsvap = None \<and>
              RepoModuleVersion_install ext mv (nsvap_profile nsvap) st' =
                (Some (Error (Msg NO_PROFILE_ERR [FNone, FList (profiles mv)])), st') \<and>
              install ext (pkg_spec # pkg_specs) False st =
                (Some (Error (Msg NO_PROFILE_ERR [FNone, FList (profiles mv)])), st) \<and>
              fst (install ext (pkg_spec # pkg_specs) True st) \<noteq> None"
    if f: "ModuleSubject_find_module_version ext pkg_spec (modules st) = Inr (Some (mv, nsvap))"
    for mv nsvap
    using f prof [OF f] by (simp add: install_None split: prod.splits option.splits)
  have frame: "repo_modules (snd (install ext [pkg_spec] autoenable st)) = repo_modules st \<and>
         (\<forall>n r. BaseInstall n r \<in> set (events (snd (install ext [pkg_spec] autoenable st))) \<longrightarrow>
                  BaseInstall n r \<in> set (events st))"
  proof (cases "ModuleSubject_find_module_version ext pkg_spec (modules st)")
    case (Inl e)
    then show ?thesis by simp
  next
    case (Inr found)
    show ?thesis
    proof (cases found)
      case None
      with Inr show ?thesis by (simp add: log_def)
    next
      case (Some p)
      obtain mv nsvap where p: "p = (mv, nsvap)" by (cases p)
      from Inr Some p have f:
        "ModuleSubject_find_module_version ext pkg_spec (modules st) = Inr (Some (mv, nsvap))"
        by simp
      show ?thesis
        using f prof [OF f] RepoModuleDict_enable_frame [of ext "nsvap_name nsvap" True False st]
        by (auto simp: install_None split: prod.splits option.splits)
    qed
  qed
  from resolved frame show ?thesis by blast
qed


lemma ex_profiles: "profiles (ex_version s v) = [''default'', ''web'']"
  by code_simp

lemma ex_resolve_foo:
  "ModuleSubject_find_module_version ex_ext ''foo'' (modules (ex_state (Some ex_conf))) =
     Inr (Some (ex_version ''1.0'' 2,
                \<lparr>nsvap_name = ''foo'', nsvap_stream = None, nsvap_version = None,
                 nsvap_arch = None, nsvap_profile = None\<rparr>))"
  by (simp add: ModuleSubject_find_module_version_def get_nsvap_possibilities_filter
      split_profile_def ex_ext_def ex_possibilities_def ex_nevra_def and_or_None_def
      find_module_version_def ex_state_def ex_foo_def ex_conf_def latest_def lt_def
      full_stream_def version_def ex_version_def ex_md_def)

theorem install_without_profile_fails_witness:
  "CHR ''/'' \<notin> set ''foo'' \<and>
   install ex_ext [''foo''] False (ex_state (Some ex_conf)) =
     (Some (Error (Msg NO_PROFILE_ERR [FNone, FList [''default'', ''web'']])),
      ex_state (Some ex_conf)) \<and>
   fst (install ex_ext [''foo''] True (ex_state (Some ex_conf))) \<noteq> None"
  using install_without_profile_fails
    [where pkg_spec = "''foo''" and ext = ex_ext and st = "ex_state (Some ex_conf)"
       and pkg_specs = "[]", THEN conjunct1, rule_format, OF _ ex_resolve_foo]
  by (simp add: ex_profiles)

subsection \<open>Upgrade\<close>

lemma emit_emit [simp]: "emit b (emit a st) = emit (a @ b) st"
  by (simp add: emit_def)

lemma emit_Nil [simp]: "emit [] st = st"
  by (simp add: emit_def)










subsection \<open>The transaction tracker\<close>

lemma writes_append [simp]: "writes (xs @ ys) = writes xs @ writes ys"
  by (induction xs rule: writes.induct) simp_all


























subsection \<open>Well-formed registries\<close>

lemma set_update_cases:
  "(k', v') \<in> set (AList.update k v al) \<Longrightarrow> (k', v') = (k, v) \<or> (k', v') \<in> set al"
  by (induction al) (auto split: if_splits)

lemma update_nonempty: "AList.update k v al \<noteq> []"
  by (cases al) auto

lemma update_appended:
  "map_of al k = None \<Longrightarrow> AList.update k v (al @ [(k, x)]) = al @ [(k, v)]"
  by (induction al) (auto split: if_splits)

lemma update_setdefault:
  "(let (x, al') = setdefault k x0 al in AList.update k (f x) al') =
     (case map_of al k of
        None \<Rightarrow> al @ [(k, f x0)]
      | Some x \<Rightarrow> AList.update k (f x) al)"
  by (simp add: setdefault_def update_appended split: option.splits)

lemma wf_stream_add:
  assumes "versions s = [] \<or> wf_stream (name mv) (stream mv) s"
  shows "wf_stream (name mv) (stream mv) (RepoModuleStream_add mv s)"
  using assms
  by (auto simp: wf_stream_def RepoModuleStream_add_def update_nonempty list_all_iff
      dest!: set_update_cases)

lemma wf_module_add:
  assumes "wf_module (name mv) m"
  shows "wf_module (name mv) (RepoModule_add mv m)"
proof -
  have streams: "streams (RepoModule_add mv m) =
     (case map_of (streams m) (stream mv) of
        None \<Rightarrow> streams m @ [(stream mv, RepoModuleStream_add mv RepoModuleStream_init)]
      | Some s \<Rightarrow> AList.update (stream mv) (RepoModuleStream_add mv s) (streams m))"
    using update_setdefault [of "stream mv" RepoModuleStream_init "streams m"
        "RepoModuleStream_add mv"]
    by (simp add: RepoModule_add_def split: prod.splits)
  show ?thesis
  proof (cases "map_of (streams m) (stream mv)")
    case None
    have "wf_stream (name mv) (stream mv) (RepoModuleStream_add mv RepoModuleStream_init)"
      by (rule wf_stream_add) (simp add: RepoModuleStream_init_def)
    with assms None show ?thesis
      by (simp add: wf_module_def streams)
  next
    case (Some s)
    then have "wf_stream (name mv) (stream mv) s"
      using assms by (auto simp: wf_module_def list_all_iff dest!: map_of_SomeD)
    then have new: "wf_stream (name mv) (stream mv) (RepoModuleStream_add mv s)"
      by (simp add: wf_stream_add)
    have "wf_stream (name mv) k x"
      if "(k, x) \<in> set (AList.update (stream mv) (RepoModuleStream_add mv s) (streams m))"
      for k x
      using set_update_cases [OF that] new assms by (auto simp: wf_module_def list_all_iff)
    with Some show ?thesis
      by (auto simp: wf_module_def streams list_all_iff)
  qed
qed

lemma wf_module_init: "wf_module nm (RepoModule_init nm)"
  by (simp add: wf_module_def RepoModule_init_def)

lemma wf_registry_update:
  assumes "wf_registry d" "wf_module k m"
  shows "wf_registry (AList.update k m d)"
proof -
  have "wf_module k' x" if "(k', x) \<in> set (AList.update k m d)" for k' x
    using set_update_cases [OF that] assms by (auto simp: wf_registry_def list_all_iff)
  then show ?thesis by (auto simp: wf_registry_def list_all_iff)
qed

lemma wf_registry_setdefault:
  assumes "wf_registry d" "setdefault k (RepoModule_init k) d = (m, ms)"
  shows "wf_registry ms \<and> wf_module k m"
  using assms
  by (auto simp: setdefault_def wf_registry_def wf_module_init list_all_iff
      split: option.splits dest!: map_of_SomeD)

lemma wf_registry_add:
  assumes "wf_registry (modules st)"
  shows "wf_registry (modules (RepoModuleDict_add mv st))"
proof -
  obtain m ms where sd:
    "setdefault (name mv) (RepoModule_init (name mv)) (modules st) = (m, ms)"
    by (cases "setdefault (name mv) (RepoModule_init (name mv)) (modules st)")
  from wf_registry_setdefault [OF assms sd] show ?thesis
    by (simp add: RepoModuleDict_add_def sd wf_registry_update wf_module_add)
qed

lemma wf_registry_load_modules:
  "wf_registry (modules st) \<Longrightarrow> wf_registry (modules (load_modules r mds st))"
  by (induction mds arbitrary: st) (simp_all add: wf_registry_add)

lemma wf_registry_read_all_modules:
  "wf_registry (modules st) \<Longrightarrow> wf_registry (modules (read_all_modules cs st))"
proof (induction cs arbitrary: st)
  case Nil
  then show ?case by simp
next
  case (Cons c cs)
  obtain m ms where sd:
    "setdefault (conf_name c) (RepoModule_init (conf_name c)) (modules st) = (m, ms)"
    by (cases "setdefault (conf_name c) (RepoModule_init (conf_name c)) (modules st)")
  from wf_registry_setdefault [OF Cons.prems sd]
  have "wf_registry (modules (st\<lparr>modules :=
      AList.update (conf_name c) (m\<lparr>conf := Some c, rm_name := conf_name c\<rparr>) ms\<rparr>))"
    by (simp add: wf_registry_update wf_module_def)
  from Cons.IH [OF this] show ?case by (simp add: sd)
qed

text \<open>
  Every registry the loaders build is well formed: \<^verbatim>\<open>load_modules\<close> of any metadata
  records, then \<^verbatim>\<open>read_all_modules\<close> of any configurations.
\<close>

theorem wf_registry_loaded:
  "wf_registry (modules (read_all_modules cs (load_modules r mds RepoModuleDict_init)))"
  by (rule wf_registry_read_all_modules, rule wf_registry_load_modules)
     (simp add: RepoModuleDict_init_def wf_registry_def)

lemma max_loop_total:
  assumes "\<forall>x \<in> set xs. full_stream x = full_stream m"
  shows "\<exists>r. max_loop m xs = Inr r \<and> r \<in> set (m # xs) \<and>
             (\<forall>x \<in> set (m # xs). version x \<le> version r)"
  using assms
proof (induction xs arbitrary: m)
  case Nil
  show ?case by simp
next
  case (Cons x xs)
  let ?m' = "if version m < version x then x else m"
  from Cons.prems have "\<forall>y \<in> set xs. full_stream y = full_stream ?m'" by simp
  from Cons.IH [OF this] obtain r where r: "max_loop ?m' xs = Inr r" "r \<in> set (?m' # xs)"
    "\<forall>y \<in> set (?m' # xs). version y \<le> version r" by blast
  from Cons.prems have "max_loop m (x # xs) = max_loop ?m' xs"
    by (simp add: lt_def)
  with r show ?case by (auto split: if_splits)
qed

lemma latest_total:
  assumes "wf_stream nm s rs"
  shows "\<exists>r. latest rs = Inr r \<and> r \<in> snd ` set (versions rs) \<and>
             (\<forall>x \<in> snd ` set (versions rs). version x \<le> version r)"
proof -
  from assms obtain p ps where ps: "versions rs = p # ps"
    by (cases "versions rs") (auto simp: wf_stream_def)
  from assms have "\<forall>x \<in> snd ` set (versions rs). full_stream x = nm @ ''-'' @ s"
    by (auto simp: wf_stream_def list_all_iff full_stream_def name_def stream_def)
  with ps have "\<forall>x \<in> set (map snd ps). full_stream x = full_stream (snd p)" by simp
  from max_loop_total [OF this] ps show ?thesis
    by (simp add: latest_def) 
qed

lemma wf_module_stream:
  "wf_registry d \<Longrightarrow> map_of d nm = Some m \<Longrightarrow> map_of (streams m) s = Some rs
   \<Longrightarrow> wf_stream nm s rs"
  by (auto simp: wf_registry_def wf_module_def list_all_iff dest!: map_of_SomeD)

lemma find_in_stream_total:
  assumes "\<exists>r. latest rs = Inr r"
  shows "\<exists>r. (case lockv of
                Some locked_version \<Rightarrow> Inr (map_of (versions rs) locked_version)
              | None \<Rightarrow>
                  (case v of
                     None \<Rightarrow> map_sum id Some (latest rs)
                   | Some n \<Rightarrow>
                       if n \<noteq> 0 then Inr (map_of (versions rs) n)
                       else map_sum id Some (latest rs))) = (Inr r :: error + RepoModuleVersion option)"
  using assms by (cases lockv; cases v) auto

text \<open>
  In a well-formed registry \<^verbatim>\<open>find_module_version\<close> raises for no query: every missing
  key is caught, and \<^verbatim>\<open>latest\<close> neither meets an empty stream nor fails the assertion
  of \<^verbatim>\<open>__lt__\<close>.
\<close>

theorem find_module_version_total:
  assumes "wf_registry d"
  shows "\<exists>r. find_module_version d nm strm v arch = Inr r"
proof (cases "map_of d nm")
  case None
  then show ?thesis by (simp add: find_module_version_def)
next
  case (Some m)
  have l: "\<exists>r. latest rs = Inr r" if "map_of (streams m) s = Some rs" for s rs
    using latest_total [OF wf_module_stream [OF assms Some that]] by blast
  define strm1 where "strm1 =
     (if strm = None \<or> strm = Some []
      then (case conf m of Some c \<Rightarrow> if conf_enabled c then conf_stream c else strm
            | None \<Rightarrow> strm)
      else strm)"
  define strm2 where "strm2 =
     (if strm1 = None \<or> strm1 = Some []
      then Some (if nm = ''httpd'' then ''2.4'' else ''f26'') else strm1)"
  define lockv where "lockv =
     (case conf m of Some c \<Rightarrow> if conf_locked c then conf_version c else None | None \<Rightarrow> None)"
  have unfold: "find_module_version d nm strm v arch =
     (case strm2 of
        None \<Rightarrow> Inr None
      | Some s \<Rightarrow>
          if s = [] then Inr None
          else (case map_of (streams m) s of
                  None \<Rightarrow> Inr None
                | Some rs \<Rightarrow>
                    (case lockv of
                       Some locked_version \<Rightarrow> Inr (map_of (versions rs) locked_version)
                     | None \<Rightarrow>
                         (case v of
                            None \<Rightarrow> map_sum id Some (latest rs)
                          | Some n \<Rightarrow>
                              if n \<noteq> 0 then Inr (map_of (versions rs) n)
                              else map_sum id Some (latest rs)))))"
    by (simp only: find_module_version_def Some option.case Let_def strm1_def strm2_def lockv_def)
  show ?thesis
  proof (cases strm2)
    case None
    then show ?thesis unfolding unfold by simp
  next
    case s: (Some s)
    show ?thesis
    proof (cases "s = []")
      case True
      with s show ?thesis unfolding unfold by simp
    next
      case False
      show ?thesis
      proof (cases "map_of (streams m) s")
        case None
        with s False show ?thesis unfolding unfold by simp
      next
        case rs: (Some rs)
        from find_in_stream_total [OF l [OF rs], where lockv = lockv and v = v] s False rs show ?thesis
          unfolding unfold by simp
      qed
    qed
  qed
qed

theorem find_module_version_total_witness:
  "wf_registry (modules (ex_state None)) \<and>
   (\<exists>r. find_module_version (modules (ex_state None)) ''foo'' (Some ''1.0'') None None = Inr r)"
  using find_module_version_total [OF ex_wf, of None "''foo''" "Some ''1.0''" None None] ex_wf
  by simp

text \<open>
  \<^verbatim>\<open>latest\<close> of a well-formed stream returns, without raising, a version of the stream
  that no version of the stream exceeds.
\<close>

theorem latest_is_max:
  assumes "wf_stream nm s rs"
  shows "\<exists>r. latest rs = Inr r \<and> r \<in> snd ` set (versions rs) \<and>
             (\<forall>x \<in> snd ` set (versions rs). version x \<le> version r)"
  using assms by (rule latest_total)

theorem latest_is_max_witness:
  "wf_stream ''foo'' ''1.0''
     \<lparr>versions = [(1, ex_version ''1.0'' 1), (2, ex_version ''1.0'' 2)], rms_stream = Some ''1.0''\<rparr> \<and>
   latest \<lparr>versions = [(1, ex_version ''1.0'' 1), (2, ex_version ''1.0'' 2)],
           rms_stream = Some ''1.0''\<rparr> = Inr (ex_version ''1.0'' 2)"
  using latest_is_max [of "''foo''" "''1.0''"
      "\<lparr>versions = [(1, ex_version ''1.0'' 1), (2, ex_version ''1.0'' 2)],
        rms_stream = Some ''1.0''\<rparr>"]
  by (simp add: wf_stream_def latest_def lt_def full_stream_def name_def stream_def version_def
      ex_version_def ex_md_def)


end
